theory Spec2Isabelle
  imports Complex_Main "HOL-Library.Stream"
begin

section \<open>The synthetic sample generator of the multiple-object detection notebook\<close>

text \<open>
  The notebook cell under study:
  \<^verbatim>\<open>
  IMG_SIZE = 64
  NUM_CLASSES = 2  # red square, blue circle

  def generate_sample():
      img = Image.new("RGB", (IMG_SIZE, IMG_SIZE), "black")
      draw = ImageDraw.Draw(img)
      labels = np.zeros(NUM_CLASSES)
      bboxes = np.zeros((NUM_CLASSES, 4))  # x1, y1, x2, y2
      for cls in range(NUM_CLASSES):
          x1, y1 = random.randint(5, 30), random.randint(5, 30)
          x2, y2 = x1 + 20, y1 + 20
          if cls == 0: draw.rectangle([x1, y1, x2, y2], fill="red")
          if cls == 1: draw.ellipse([x1, y1, x2, y2], fill="blue")
          labels[cls] = 1
          bboxes[cls] = np.array([x1, y1, x2, y2]) / IMG_SIZE  # normalize
      img_array = np.array(img) / 255.0
      return img_array, labels, bboxes

  def create_dataset(num_samples=1000):
      X, y_cls, y_bbox = [], [], []
      for _ in range(num_samples):
          img, labels, bboxes = generate_sample()
          X.append(img)
          y_cls.append(labels)
          y_bbox.append(bboxes)
      return np.array(X), np.array(y_cls), np.array(y_bbox)
  \<close>
\<close>

subsection \<open>Errors and the random source\<close>

text \<open>The exceptions the library calls of the two functions can raise.\<close>

datatype error = ValueError | IndexError

text \<open>
  The state of the module-level generator behind \<^verbatim>\<open>random\<close> is observed only through
  the numbers it hands out, one per call, so it is the stream of those numbers; a draw
  reads the head and leaves the tail as the next state.
\<close>

type_synonym rng = "nat stream"

text \<open>
  \<^verbatim>\<open>random.randint(a, b)\<close>: an integer \<open>N\<close> with \<open>a \<le> N \<le> b\<close>, both ends included;
  an empty range raises \<^verbatim>\<open>ValueError\<close>. The number read from the source is reduced to
  the \<open>b - a + 1\<close> values of the range, so that of the numbers of a block of
  \<open>(b - a + 1) m\<close> equally many give each value.
\<close>

definition randint :: "int \<Rightarrow> int \<Rightarrow> rng \<Rightarrow> error + (int \<times> rng)" where
  "randint a b g =
     (if b < a then Inl ValueError
      else Inr (a + int (shd g mod nat (b - a + 1)), stl g))"

subsection \<open>Images and drawing\<close>

text \<open>
  An RGB image of the drawing library is its rows of pixels, top row first, each pixel
  three bytes. A bounding box is \<open>(x0, y0, x1, y1)\<close> in pixel coordinates.
\<close>

type_synonym rgb = "nat \<times> nat \<times> nat"
type_synonym pil_image = "rgb list list"
type_synonym box = "int \<times> int \<times> int \<times> int"

definition black :: rgb where "black = (0, 0, 0)"
definition red :: rgb where "red = (255, 0, 0)"
definition blue :: rgb where "blue = (0, 0, 255)"

definition Image_new :: "nat \<times> nat \<Rightarrow> rgb \<Rightarrow> pil_image" where
  "Image_new sz c = (case sz of (w, h) \<Rightarrow> replicate h (replicate w c))"

text \<open>
  Filling a shape sets every pixel of the image that the shape covers and leaves the
  others; what lies outside the image is clipped.
\<close>

definition paint :: "(int \<Rightarrow> int \<Rightarrow> bool) \<Rightarrow> rgb \<Rightarrow> pil_image \<Rightarrow> pil_image" where
  "paint covers c img =
     map (\<lambda>(y, row). map (\<lambda>(x, p). if covers (int x) (int y) then c else p) (enumerate 0 row))
       (enumerate 0 img)"

text \<open>
  \<^verbatim>\<open>draw.rectangle([x0, y0, x1, y1], fill=c)\<close> fills the pixels from \<open>(x0, y0)\<close> to
  \<open>(x1, y1)\<close>, both corners included, and rejects a box whose second corner lies before
  the first.
\<close>

definition rectangle_px :: "box \<Rightarrow> int \<Rightarrow> int \<Rightarrow> bool" where
  "rectangle_px b x y = (case b of (x0, y0, x1, y1) \<Rightarrow> x0 \<le> x \<and> x \<le> x1 \<and> y0 \<le> y \<and> y \<le> y1)"

definition draw_rectangle :: "box \<Rightarrow> rgb \<Rightarrow> pil_image \<Rightarrow> error + pil_image" where
  "draw_rectangle b fill img =
     (case b of (x0, y0, x1, y1) \<Rightarrow>
        if x1 < x0 \<or> y1 < y0 then Inl ValueError
        else Inr (paint (rectangle_px b) fill img))"

text \<open>
  \<^verbatim>\<open>draw.ellipse([x0, y0, x1, y1], fill=c)\<close> fills the ellipse inscribed in the box. Which
  pixels the drawing library counts as inside is its rasteriser's business and not part of
  the notebook, so the rasteriser is a parameter \<open>ell\<close>: \<open>ell b x y\<close> says whether the
  ellipse of box \<open>b\<close> covers pixel \<open>(x, y)\<close>.
\<close>

type_synonym rasteriser = "box \<Rightarrow> int \<Rightarrow> int \<Rightarrow> bool"

definition draw_ellipse :: "rasteriser \<Rightarrow> box \<Rightarrow> rgb \<Rightarrow> pil_image \<Rightarrow> error + pil_image" where
  "draw_ellipse ell b fill img =
     (case b of (x0, y0, x1, y1) \<Rightarrow>
        if x1 < x0 \<or> y1 < y0 then Inl ValueError
        else Inr (paint (ell b) fill img))"

text \<open>
  One rasteriser to evaluate examples with: the pixels whose centre-to-centre offset lies
  in the inscribed ellipse, in integer arithmetic.
\<close>

definition disc_px :: rasteriser where
  "disc_px b x y =
     (case b of (x0, y0, x1, y1) \<Rightarrow>
        (2 * x - x0 - x1)\<^sup>2 * (y1 - y0)\<^sup>2 + (2 * y - y0 - y1)\<^sup>2 * (x1 - x0)\<^sup>2
          \<le> (x1 - x0)\<^sup>2 * (y1 - y0)\<^sup>2)"

subsection \<open>Arrays\<close>

text \<open>
  The arrays hold binary64 numbers. Every number the two functions store is \<open>0\<close>, \<open>1\<close> or
  \<open>n / 64\<close> for an integer \<open>0 \<le> n \<le> 64\<close>, and every one of them is a binary64 number, as
  are their differences; so the quotients below are the exact ones and the entries are
  rationals.
\<close>

type_synonym image = "(rat \<times> rat \<times> rat) list list"
type_synonym bbox = "rat \<times> rat \<times> rat \<times> rat"

definition np_zeros :: "nat \<Rightarrow> rat list" where
  "np_zeros n = replicate n 0"

definition np_zeros4 :: "nat \<Rightarrow> bbox list" where
  "np_zeros4 n = replicate n (0, 0, 0, 0)"

text \<open>\<^verbatim>\<open>a[i] = v\<close> with \<open>i\<close> not negative: out of range raises \<^verbatim>\<open>IndexError\<close>.\<close>

definition setitem :: "'a list \<Rightarrow> nat \<Rightarrow> 'a \<Rightarrow> error + 'a list" where
  "setitem xs i v = (if i < length xs then Inr (xs[i := v]) else Inl IndexError)"

text \<open>\<^verbatim>\<open>np.array(img) / 255.0\<close>: every channel of every pixel divided by 255.\<close>

definition img_to_array :: "pil_image \<Rightarrow> image" where
  "img_to_array img =
     map (map (\<lambda>(r, g, b). (rat_of_nat r / 255, rat_of_nat g / 255, rat_of_nat b / 255))) img"

subsection \<open>Loops\<close>

text \<open>
  \<^verbatim>\<open>for i in range(n): body\<close> over a loop state, an exception in the body ending the loop.
  \<^verbatim>\<open>range(n)\<close> is empty when \<open>n\<close> is not positive.
\<close>

fun for_each :: "(nat \<Rightarrow> 's \<Rightarrow> error + 's) \<Rightarrow> nat list \<Rightarrow> 's \<Rightarrow> error + 's" where
  "for_each body [] s = Inr s"
| "for_each body (k # ks) s =
     (case body k s of Inl e \<Rightarrow> Inl e | Inr s' \<Rightarrow> for_each body ks s')"

definition range_py :: "int \<Rightarrow> nat list" where
  "range_py n = [0 ..< nat n]"

subsection \<open>The generator\<close>

definition IMG_SIZE :: nat where "IMG_SIZE = 64"
definition NUM_CLASSES :: nat where "NUM_CLASSES = 2"

type_synonym sample = "image \<times> rat list \<times> bbox list"

text \<open>
  The body of the loop of \<^verbatim>\<open>generate_sample\<close>, on the loop's variables: the image drawn
  on, the two label arrays and the random source.
\<close>

fun sample_body ::
  "rasteriser \<Rightarrow> nat \<Rightarrow> pil_image \<times> rat list \<times> bbox list \<times> rng
     \<Rightarrow> error + (pil_image \<times> rat list \<times> bbox list \<times> rng)" where
  "sample_body ell cls (img, labels, bboxes, g) =
     (case randint 5 30 g of Inl e \<Rightarrow> Inl e | Inr (x1, g1) \<Rightarrow>
     (case randint 5 30 g1 of Inl e \<Rightarrow> Inl e | Inr (y1, g2) \<Rightarrow>
     (let x2 = x1 + 20; y2 = y1 + 20 in
     (case (if cls = 0 then draw_rectangle (x1, y1, x2, y2) red img else Inr img) of
        Inl e \<Rightarrow> Inl e | Inr img1 \<Rightarrow>
     (case (if cls = 1 then draw_ellipse ell (x1, y1, x2, y2) blue img1 else Inr img1) of
        Inl e \<Rightarrow> Inl e | Inr img2 \<Rightarrow>
     (case setitem labels cls 1 of Inl e \<Rightarrow> Inl e | Inr labels' \<Rightarrow>
     (case setitem bboxes cls
             (of_int x1 / of_nat IMG_SIZE, of_int y1 / of_nat IMG_SIZE,
              of_int x2 / of_nat IMG_SIZE, of_int y2 / of_nat IMG_SIZE) of
        Inl e \<Rightarrow> Inl e | Inr bboxes' \<Rightarrow>
      Inr (img2, labels', bboxes', g2))))))))"

definition generate_sample :: "rasteriser \<Rightarrow> rng \<Rightarrow> error + (sample \<times> rng)" where
  "generate_sample ell g =
     (case for_each (sample_body ell) (range_py (int NUM_CLASSES))
             (Image_new (IMG_SIZE, IMG_SIZE) black, np_zeros NUM_CLASSES,
              np_zeros4 NUM_CLASSES, g) of
        Inl e \<Rightarrow> Inl e
      | Inr (img, labels, bboxes, g') \<Rightarrow> Inr ((img_to_array img, labels, bboxes), g'))"

text \<open>The body of the loop of \<^verbatim>\<open>create_dataset\<close>, on the three lists and the random source.\<close>

fun dataset_body ::
  "rasteriser \<Rightarrow> nat \<Rightarrow> image list \<times> rat list list \<times> bbox list list \<times> rng
     \<Rightarrow> error + (image list \<times> rat list list \<times> bbox list list \<times> rng)" where
  "dataset_body ell i (X, y_cls, y_bbox, g) =
     (case generate_sample ell g of
        Inl e \<Rightarrow> Inl e
      | Inr ((img, labels, bboxes), g') \<Rightarrow>
          Inr (X @ [img], y_cls @ [labels], y_bbox @ [bboxes], g'))"

text \<open>\<^verbatim>\<open>np.array\<close> of a list of arrays stacks them and keeps their order.\<close>

definition create_dataset ::
  "rasteriser \<Rightarrow> int \<Rightarrow> rng
     \<Rightarrow> error + ((image list \<times> rat list list \<times> bbox list list) \<times> rng)" where
  "create_dataset ell num_samples g =
     (case for_each (dataset_body ell) (range_py num_samples) ([], [], [], g) of
        Inl e \<Rightarrow> Inl e
      | Inr (X, y_cls, y_bbox, g') \<Rightarrow> Inr ((X, y_cls, y_bbox), g'))"

subsection \<open>Auxiliary notions for the proofs\<close>

text \<open>
  The \<open>i\<close>-th number that \<^verbatim>\<open>randint(5, 30)\<close> makes of a source, the box of the \<open>k\<close>-th
  shape drawn from it, a box divided by the image size, and the sample these give.
\<close>

definition coord :: "rng \<Rightarrow> nat \<Rightarrow> int" where
  "coord g i = 5 + int (g !! i mod 26)"

definition drawn_box :: "rng \<Rightarrow> nat \<Rightarrow> box" where
  "drawn_box g k =
     (coord g (2 * k), coord g (2 * k + 1), coord g (2 * k) + 20, coord g (2 * k + 1) + 20)"

definition normalized :: "box \<Rightarrow> bbox" where
  "normalized b =
     (case b of (x1, y1, x2, y2) \<Rightarrow>
        (of_int x1 / 64, of_int y1 / 64, of_int x2 / 64, of_int y2 / 64))"

definition sample_at :: "rasteriser \<Rightarrow> rng \<Rightarrow> sample" where
  "sample_at ell g =
     (img_to_array (paint (ell (drawn_box g 1)) blue
        (paint (rectangle_px (drawn_box g 0)) red (Image_new (IMG_SIZE, IMG_SIZE) black))),
      [1, 1], [normalized (drawn_box g 0), normalized (drawn_box g 1)])"

section \<open>Properties\<close>

subsection \<open>One sample in closed form\<close>

lemma randint_5_30: "randint 5 30 g = Inr (coord g 0, stl g)"
  by (simp add: randint_def coord_def)

lemma range_py_2: "range_py 2 = [0, 1]"
  by (simp add: range_py_def upt_rec)

lemma coord_stl: "coord (stl g) i = coord g (Suc i)"
  by (simp add: coord_def)

lemma drawn_box_stl2: "drawn_box (stl (stl g)) k = drawn_box g (Suc k)"
  by (simp add: drawn_box_def coord_stl)

lemma sdrop_4: "sdrop 4 g = stl (stl (stl (stl g)))"
  by (simp add: numeral_eq_Suc)

lemma sample_body_0:
  "sample_body ell 0 (img, [a, b], [c, d], g) =
     Inr (paint (rectangle_px (drawn_box g 0)) red img, [1, b],
          [normalized (drawn_box g 0), d], stl (stl g))"
  by (simp add: randint_5_30 draw_rectangle_def setitem_def Let_def
        drawn_box_def normalized_def IMG_SIZE_def coord_stl)

lemma sample_body_1:
  "sample_body ell (Suc 0) (img, [a, b], [c, d], g) =
     Inr (paint (ell (drawn_box g 0)) blue img, [a, 1],
          [c, normalized (drawn_box g 0)], stl (stl g))"
  by (simp add: randint_5_30 draw_ellipse_def setitem_def Let_def
        drawn_box_def normalized_def IMG_SIZE_def coord_stl)

lemma generate_sample_eq: "generate_sample ell g = Inr (sample_at ell g, sdrop 4 g)"
  by (simp add: generate_sample_def sample_at_def range_py_2 np_zeros_def np_zeros4_def
        NUM_CLASSES_def numeral_2_eq_2 sample_body_0 sample_body_1 drawn_box_stl2 sdrop_4
        del: sample_body.simps)

subsection \<open>Pixels of a sample\<close>

lemma length_paint: "length (paint cv c img) = length img"
  by (simp add: paint_def)

lemma length_paint_row: "y < length img \<Longrightarrow> length (paint cv c img ! y) = length (img ! y)"
  by (simp add: paint_def nth_enumerate_eq)

lemma paint_nth:
  "y < length img \<Longrightarrow> x < length (img ! y) \<Longrightarrow>
     paint cv c img ! y ! x = (if cv (int x) (int y) then c else img ! y ! x)"
  by (simp add: paint_def nth_enumerate_eq)

lemma Image_new_nth: "y < h \<Longrightarrow> x < w \<Longrightarrow> Image_new (w, h) c ! y ! x = c"
  by (simp add: Image_new_def)

lemma length_Image_new: "length (Image_new (w, h) c) = h"
  by (simp add: Image_new_def)

lemma length_Image_new_row: "y < h \<Longrightarrow> length (Image_new (w, h) c ! y) = w"
  by (simp add: Image_new_def)

lemma img_to_array_nth:
  "y < length img \<Longrightarrow> x < length (img ! y) \<Longrightarrow>
     img_to_array img ! y ! x =
       (case img ! y ! x of (r, g, b) \<Rightarrow> (rat_of_nat r / 255, rat_of_nat g / 255, rat_of_nat b / 255))"
  by (simp add: img_to_array_def)

lemma sample_pixel:
  assumes "y < IMG_SIZE" "x < IMG_SIZE"
  shows "fst (sample_at ell g) ! y ! x =
     (if ell (drawn_box g 1) (int x) (int y) then (0, 0, 1)
      else if rectangle_px (drawn_box g 0) (int x) (int y) then (1, 0, 0)
      else (0, 0, 0))"
  using assms
  by (simp add: sample_at_def img_to_array_nth paint_nth length_paint length_paint_row
        length_Image_new length_Image_new_row Image_new_nth red_def blue_def black_def)

subsection \<open>The dataset in closed form\<close>

lemma for_each_append:
  "for_each body (ks @ ls) s =
     (case for_each body ks s of Inl e \<Rightarrow> Inl e | Inr s' \<Rightarrow> for_each body ls s')"
  by (induction ks arbitrary: s) (auto split: sum.splits)

lemma dataset_body_eq:
  "dataset_body ell i (X, y_cls, y_bbox, g) =
     Inr (X @ [fst (sample_at ell g)], y_cls @ [fst (snd (sample_at ell g))],
          y_bbox @ [snd (snd (sample_at ell g))], sdrop 4 g)"
  by (simp add: generate_sample_eq split: prod.splits)

lemma dataset_loop:
  "for_each (dataset_body ell) [0 ..< n] (X, y_cls, y_bbox, g) =
     Inr (X @ map (\<lambda>i. fst (sample_at ell (sdrop (4 * i) g))) [0 ..< n],
          y_cls @ map (\<lambda>i. fst (snd (sample_at ell (sdrop (4 * i) g)))) [0 ..< n],
          y_bbox @ map (\<lambda>i. snd (snd (sample_at ell (sdrop (4 * i) g)))) [0 ..< n],
          sdrop (4 * n) g)"
proof (induction n)
  case 0
  show ?case by simp
next
  case (Suc n)
  show ?case
    by (simp add: for_each_append Suc dataset_body_eq add.commute del: dataset_body.simps)
qed

lemma create_dataset_eq:
  "create_dataset ell n g =
     Inr ((map (\<lambda>i. fst (sample_at ell (sdrop (4 * i) g))) [0 ..< nat n],
           map (\<lambda>i. fst (snd (sample_at ell (sdrop (4 * i) g)))) [0 ..< nat n],
           map (\<lambda>i. snd (snd (sample_at ell (sdrop (4 * i) g)))) [0 ..< nat n]),
          sdrop (4 * nat n) g)"
  by (simp add: create_dataset_def range_py_def dataset_loop)

subsection \<open>What a sample reads of the random source\<close>

lemma coord_cong: "stake n h = stake n g \<Longrightarrow> i < n \<Longrightarrow> coord h i = coord g i"
  by (metis coord_def stake_nth)

lemma sample_at_cong:
  assumes "stake 4 h = stake 4 g"
  shows "sample_at ell h = sample_at ell g"
proof -
  have "coord h i = coord g i" if "i < 4" for i
    using assms that by (rule coord_cong)
  then have "drawn_box h k = drawn_box g k" if "k < 2" for k
    using that by (simp add: drawn_box_def)
  then show ?thesis
    by (simp add: sample_at_def)
qed

lemma stake_sdrop_cong:
  assumes "stake (m + n) h = stake (m + n) g"
  shows "stake n (sdrop m h) = stake n (sdrop m g)"
proof (rule nth_equalityI)
  show "length (stake n (sdrop m h)) = length (stake n (sdrop m g))" by simp
next
  fix i assume "i < length (stake n (sdrop m h))"
  then have i: "i < n" by simp
  have "stake (m + n) h ! (m + i) = stake (m + n) g ! (m + i)"
    using assms by simp
  with i show "stake n (sdrop m h) ! i = stake n (sdrop m g) ! i"
    by (simp add: sdrop_snth)
qed

subsection \<open>The coordinates drawn\<close>

lemma coord_bounds: "5 \<le> coord g i \<and> coord g i \<le> 30"
proof -
  have "g !! i mod 26 < 26" by simp
  then show ?thesis unfolding coord_def by linarith
qed

lemma randint_sdrop: "randint 5 30 (sdrop n g) = Inr (coord g n, sdrop (Suc n) g)"
  by (simp add: randint_def coord_def)

lemma sample_boxes_nth:
  "k < 2 \<Longrightarrow> snd (snd (sample_at ell g)) ! k = normalized (drawn_box g k)"
  by (cases k) (simp_all add: sample_at_def)

lemma normalized_bounds:
  "case normalized (drawn_box g k) of (a, b, c, d) \<Rightarrow>
     0 \<le> a \<and> a < c \<and> c \<le> 1 \<and> 0 \<le> b \<and> b < d \<and> d \<le> 1"
  using coord_bounds [of g "2 * k"] coord_bounds [of g "2 * k + 1"]
  by (simp add: normalized_def drawn_box_def)

lemma generate_sample_nth:
  "generate_sample ell (sdrop (4 * i) g) =
     Inr ((fst (sample_at ell (sdrop (4 * i) g)), fst (snd (sample_at ell (sdrop (4 * i) g))),
           snd (snd (sample_at ell (sdrop (4 * i) g)))), sdrop (4 * Suc i) g)"
  by (simp add: generate_sample_eq add.commute)

lemma sample_at_sdrop_cong:
  assumes "stake (4 * n) h = stake (4 * n) g" and "i < n"
  shows "sample_at ell (sdrop (4 * i) h) = sample_at ell (sdrop (4 * i) g)"
proof -
  from assms(2) have le: "4 * i + 4 \<le> 4 * n" by simp
  have "stake (4 * i + 4) s = take (4 * i + 4) (stake (4 * n) s)" for s :: rng
    using le by (simp add: take_stake min_def)
  with assms(1) have "stake (4 * i + 4) h = stake (4 * i + 4) g" by simp
  then have "stake 4 (sdrop (4 * i) h) = stake 4 (sdrop (4 * i) g)"
    by (rule stake_sdrop_cong)
  then show ?thesis by (rule sample_at_cong)
qed

lemma dataset_cong:
  assumes "stake (4 * m) h = stake (4 * m) g"
  shows "map (\<lambda>i. f (sample_at ell (sdrop (4 * i) h))) [0 ..< m] =
         map (\<lambda>i. f (sample_at ell (sdrop (4 * i) g))) [0 ..< m]"
proof (rule map_cong [OF refl])
  fix i assume "i \<in> set [0 ..< m]"
  then have "i < m" by simp
  with assms have "sample_at ell (sdrop (4 * i) h) = sample_at ell (sdrop (4 * i) g)"
    by (rule sample_at_sdrop_cong)
  then show "f (sample_at ell (sdrop (4 * i) h)) = f (sample_at ell (sdrop (4 * i) g))"
    by (rule arg_cong)
qed

subsection \<open>How often a corner is drawn\<close>

lemma card_residue:
  assumes "c < 26"
  shows "card {r::nat. r < 26 * m \<and> r mod 26 = c} = m"
proof -
  have "{r::nat. r < 26 * m \<and> r mod 26 = c} = (\<lambda>q. 26 * q + c) ` {..<m}"
  proof (rule set_eqI, rule iffI)
    fix r assume "r \<in> {r::nat. r < 26 * m \<and> r mod 26 = c}"
    then have r: "r < 26 * m" "r mod 26 = c" by simp_all
    then have "r div 26 < m" by (simp add: div_less_iff_less_mult mult.commute)
    moreover have "r = 26 * (r div 26) + c" using r(2) by presburger
    ultimately show "r \<in> (\<lambda>q. 26 * q + c) ` {..<m}" by blast
  next
    fix r assume "r \<in> (\<lambda>q. 26 * q + c) ` {..<m}"
    then obtain q where q: "q < m" "r = 26 * q + c" by auto
    from q(1) have "26 * q + 26 \<le> 26 * m" by simp
    with assms q(2) have "r < 26 * m" by simp
    moreover from assms q(2) have "r mod 26 = c" by simp
    ultimately show "r \<in> {r::nat. r < 26 * m \<and> r mod 26 = c}" by simp
  qed
  moreover have "inj_on (\<lambda>q::nat. 26 * q + c) {..<m}"
    by (rule inj_onI) simp
  ultimately show ?thesis by (simp add: card_image)
qed

lemma shift_snth_add: "(p @- t) !! (length p + n) = t !! n"
  by (induction p) simp_all

lemma drawn_box_shift:
  assumes "length p = 2 * k"
  shows "drawn_box (p @- (r ## s ## h)) k =
     (5 + int (r mod 26), 5 + int (s mod 26), 5 + int (r mod 26) + 20, 5 + int (s mod 26) + 20)"
proof -
  have "(p @- (r ## s ## h)) !! (2 * k) = r"
    using shift_snth_add [of p "r ## s ## h" 0] assms by simp
  moreover have "(p @- (r ## s ## h)) !! (2 * k + 1) = s"
    using shift_snth_add [of p "r ## s ## h" 1] assms by simp
  ultimately show ?thesis by (simp add: drawn_box_def coord_def)
qed

lemma box_drawn_iff:
  assumes "k < 2" and "length p = 2 * k" and "5 \<le> a" and "5 \<le> b"
  shows "(\<exists>img labels bboxes g'.
            generate_sample ell (p @- (r ## s ## h)) = Inr ((img, labels, bboxes), g')
          \<and> bboxes ! k = (of_int a / of_nat IMG_SIZE, of_int b / of_nat IMG_SIZE,
                          of_int (a + 20) / of_nat IMG_SIZE, of_int (b + 20) / of_nat IMG_SIZE))
     \<longleftrightarrow> r mod 26 = nat (a - 5) \<and> s mod 26 = nat (b - 5)"
proof -
  let ?g = "p @- (r ## s ## h)"
  have "(\<exists>img labels bboxes g'.
            generate_sample ell ?g = Inr ((img, labels, bboxes), g')
          \<and> bboxes ! k = (of_int a / of_nat IMG_SIZE, of_int b / of_nat IMG_SIZE,
                          of_int (a + 20) / of_nat IMG_SIZE, of_int (b + 20) / of_nat IMG_SIZE))
     \<longleftrightarrow> snd (snd (sample_at ell ?g)) ! k =
           (of_int a / of_nat IMG_SIZE, of_int b / of_nat IMG_SIZE,
            of_int (a + 20) / of_nat IMG_SIZE, of_int (b + 20) / of_nat IMG_SIZE)"
    unfolding generate_sample_eq by (cases "sample_at ell ?g") auto
  also have "\<dots> \<longleftrightarrow> 5 + int (r mod 26) = a \<and> 5 + int (s mod 26) = b"
    unfolding sample_boxes_nth [OF assms(1)] drawn_box_shift [OF assms(2)]
    by (auto simp add: normalized_def IMG_SIZE_def)
  also have "\<dots> \<longleftrightarrow> r mod 26 = nat (a - 5) \<and> s mod 26 = nat (b - 5)"
    using assms(3,4) by auto
  finally show ?thesis .
qed


lemma card_box_drawn:
  assumes "k < 2" and "length p = 2 * k"
    and "5 \<le> a" and "a \<le> 30" and "5 \<le> b" and "b \<le> 30"
  shows "card {(r, s). r < 26 * m \<and> s < 26 * m \<and>
           (\<exists>img labels bboxes g'.
              generate_sample ell (p @- (r ## s ## h)) = Inr ((img, labels, bboxes), g')
            \<and> bboxes ! k = (of_int a / of_nat IMG_SIZE, of_int b / of_nat IMG_SIZE,
                            of_int (a + 20) / of_nat IMG_SIZE, of_int (b + 20) / of_nat IMG_SIZE))}
         = m * m"
proof -
  let ?A = "{r::nat. r < 26 * m \<and> r mod 26 = nat (a - 5)}"
  let ?B = "{s::nat. s < 26 * m \<and> s mod 26 = nat (b - 5)}"
  have "{(r, s). r < 26 * m \<and> s < 26 * m \<and>
           (\<exists>img labels bboxes g'.
              generate_sample ell (p @- (r ## s ## h)) = Inr ((img, labels, bboxes), g')
            \<and> bboxes ! k = (of_int a / of_nat IMG_SIZE, of_int b / of_nat IMG_SIZE,
                            of_int (a + 20) / of_nat IMG_SIZE, of_int (b + 20) / of_nat IMG_SIZE))}
        = ?A \<times> ?B"
    unfolding box_drawn_iff [OF assms(1) assms(2) assms(3) assms(5)] by blast
  moreover have "card ?A = m"
    using assms(3,4) by (intro card_residue) simp
  moreover have "card ?B = m"
    using assms(5,6) by (intro card_residue) simp
  ultimately show ?thesis by (simp add: card_cartesian_product)
qed


section \<open>The claims\<close>

text \<open>
  C1, as the code has it. In every call of \<^verbatim>\<open>generate_sample\<close> and for every class
  \<open>k < NUM_CLASSES\<close>, the raw coordinates \<open>x1\<close> and \<open>y1\<close> are the results of two successive
  calls \<^verbatim>\<open>randint(5, 30)\<close>, the draws \<open>2k\<close> and \<open>2k + 1\<close> of the random source: integers of
  the closed range \<open>[5, 30]\<close>, whatever the image size. With the image size 64 the far
  corner \<open>x1 + 20\<close>, \<open>y1 + 20\<close> stays within \<open>IMG_SIZE - 14 = 50\<close>, and the box stored for
  the class is these coordinates divided by the image size.

  The two coordinates are drawn uniformly and independently: let the source hand out
  any numbers \<open>p\<close> before the two draws of class \<open>k\<close> and any numbers \<open>h\<close> after them, and
  let the two numbers \<open>r\<close>, \<open>s\<close> it hands out for the class run over a block of \<open>26m\<close> values
  each. Of these \<open>(26m)\<^sup>2\<close> pairs exactly \<open>m\<^sup>2\<close> give the class the corner \<open>(a, b)\<close>, for every
  \<open>a\<close> and \<open>b\<close> of \<open>[5, 30]\<close>: every pair of coordinates has the same share \<open>1 / 26\<^sup>2\<close>, the
  product of the shares \<open>1 / 26\<close> of its two coordinates, and the share does not depend on
  what the source hands out for the other class.
\<close>

theorem generate_sample_draw_range:
  assumes "k < NUM_CLASSES"
  shows "(\<exists>img labels bboxes g' x1 y1 g1 g2.
            generate_sample ell g = Inr ((img, labels, bboxes), g')
          \<and> randint 5 30 (sdrop (2 * k) g) = Inr (x1, g1)
          \<and> randint 5 30 g1 = Inr (y1, g2)
          \<and> 5 \<le> x1 \<and> x1 \<le> 30 \<and> 5 \<le> y1 \<and> y1 \<le> 30
          \<and> x1 + 20 \<le> int IMG_SIZE - 14 \<and> y1 + 20 \<le> int IMG_SIZE - 14
          \<and> bboxes ! k = (of_int x1 / of_nat IMG_SIZE, of_int y1 / of_nat IMG_SIZE,
                          of_int (x1 + 20) / of_nat IMG_SIZE, of_int (y1 + 20) / of_nat IMG_SIZE))
       \<and> (length p = 2 * k \<and> 5 \<le> a \<and> a \<le> 30 \<and> 5 \<le> b \<and> b \<le> 30 \<longrightarrow>
            card {(r, s). r < 26 * m \<and> s < 26 * m \<and>
              (\<exists>img labels bboxes g'.
                 generate_sample ell (p @- (r ## s ## h)) = Inr ((img, labels, bboxes), g')
               \<and> bboxes ! k = (of_int a / of_nat IMG_SIZE, of_int b / of_nat IMG_SIZE,
                               of_int (a + 20) / of_nat IMG_SIZE, of_int (b + 20) / of_nat IMG_SIZE))}
            = m * m)"
proof (rule conjI)
  from assms have k: "k < 2" by (simp add: NUM_CLASSES_def)
  obtain img labels bboxes where s: "sample_at ell g = (img, labels, bboxes)"
    by (cases "sample_at ell g") auto
  have b: "bboxes ! k = normalized (drawn_box g k)"
    using sample_boxes_nth [OF k, of ell g] s by simp
  have "generate_sample ell g = Inr ((img, labels, bboxes), sdrop 4 g)"
    by (simp add: generate_sample_eq s)
  moreover have "randint 5 30 (sdrop (2 * k) g) = Inr (coord g (2 * k), sdrop (Suc (2 * k)) g)"
    by (rule randint_sdrop)
  moreover have "randint 5 30 (sdrop (Suc (2 * k)) g) =
      Inr (coord g (2 * k + 1), sdrop (Suc (Suc (2 * k))) g)"
    using randint_sdrop [of "Suc (2 * k)" g] by simp
  moreover have "coord g i + 20 \<le> int IMG_SIZE - 14" for i
    using coord_bounds [of g i] by (simp add: IMG_SIZE_def)
  moreover have "bboxes ! k =
      (of_int (coord g (2 * k)) / of_nat IMG_SIZE, of_int (coord g (2 * k + 1)) / of_nat IMG_SIZE,
       of_int (coord g (2 * k) + 20) / of_nat IMG_SIZE,
       of_int (coord g (2 * k + 1) + 20) / of_nat IMG_SIZE)"
    by (simp add: b normalized_def drawn_box_def IMG_SIZE_def)
  ultimately show "\<exists>img labels bboxes g' x1 y1 g1 g2.
            generate_sample ell g = Inr ((img, labels, bboxes), g')
          \<and> randint 5 30 (sdrop (2 * k) g) = Inr (x1, g1)
          \<and> randint 5 30 g1 = Inr (y1, g2)
          \<and> 5 \<le> x1 \<and> x1 \<le> 30 \<and> 5 \<le> y1 \<and> y1 \<le> 30
          \<and> x1 + 20 \<le> int IMG_SIZE - 14 \<and> y1 + 20 \<le> int IMG_SIZE - 14
          \<and> bboxes ! k = (of_int x1 / of_nat IMG_SIZE, of_int y1 / of_nat IMG_SIZE,
                          of_int (x1 + 20) / of_nat IMG_SIZE, of_int (y1 + 20) / of_nat IMG_SIZE)"
    using coord_bounds [of g "2 * k"] coord_bounds [of g "2 * k + 1"] by blast
next
  from assms have k: "k < 2" by (simp add: NUM_CLASSES_def)
  show "length p = 2 * k \<and> 5 \<le> a \<and> a \<le> 30 \<and> 5 \<le> b \<and> b \<le> 30 \<longrightarrow>
            card {(r, s). r < 26 * m \<and> s < 26 * m \<and>
              (\<exists>img labels bboxes g'.
                 generate_sample ell (p @- (r ## s ## h)) = Inr ((img, labels, bboxes), g')
               \<and> bboxes ! k = (of_int a / of_nat IMG_SIZE, of_int b / of_nat IMG_SIZE,
                               of_int (a + 20) / of_nat IMG_SIZE, of_int (b + 20) / of_nat IMG_SIZE))}
            = m * m"
    using card_box_drawn [OF k] by blast
qed

theorem generate_sample_draw_range_witness:
  "(1::nat) < NUM_CLASSES
   \<and> (\<exists>img labels bboxes g'.
        generate_sample disc_px (sconst 25) = Inr ((img, labels, bboxes), g')
      \<and> bboxes ! 1 = (30 / 64, 30 / 64, 50 / 64, 50 / 64))
   \<and> length [7::nat, 9] = 2 * 1
   \<and> card {(r, s). r < 26 * 3 \<and> s < 26 * 3 \<and>
        (\<exists>img labels bboxes g'.
           generate_sample disc_px ([7, 9] @- (r ## s ## sconst 0)) = Inr ((img, labels, bboxes), g')
         \<and> bboxes ! 1 = (of_int 30 / of_nat IMG_SIZE, of_int 5 / of_nat IMG_SIZE,
                         of_int (30 + 20) / of_nat IMG_SIZE, of_int (5 + 20) / of_nat IMG_SIZE))}
      = 3 * 3"
proof -
  have k: "(1::nat) < NUM_CLASSES" by (simp add: NUM_CLASSES_def)
  note t = generate_sample_draw_range [OF k, where ell = disc_px and g = "sconst 25"
      and p = "[7, 9]" and a = 30 and b = 5 and m = 3 and h = "sconst 0"]
  from t have "\<exists>img labels bboxes g'.
        generate_sample disc_px (sconst 25) = Inr ((img, labels, bboxes), g')
      \<and> bboxes ! 1 = (30 / 64, 30 / 64, 50 / 64, 50 / 64)"
    by (auto simp add: randint_def IMG_SIZE_def NUM_CLASSES_def)
  moreover have l: "length [7::nat, 9] = 2 * 1 \<and> (5::int) \<le> 30 \<and> (30::int) \<le> 30
      \<and> (5::int) \<le> 5 \<and> (5::int) \<le> 30"
    by simp
  moreover from t l have "card {(r, s). r < 26 * 3 \<and> s < 26 * 3 \<and>
        (\<exists>img labels bboxes g'.
           generate_sample disc_px ([7, 9] @- (r ## s ## sconst 0)) = Inr ((img, labels, bboxes), g')
         \<and> bboxes ! 1 = (of_int 30 / of_nat IMG_SIZE, of_int 5 / of_nat IMG_SIZE,
                         of_int (30 + 20) / of_nat IMG_SIZE, of_int (5 + 20) / of_nat IMG_SIZE))}
      = 3 * 3"
    by blast
  ultimately show ?thesis using k by blast
qed

text \<open>
  C1, as the claim has it, fails: the claim bounds the draws by \<open>S - 35 = 29\<close> and the far
  corner by \<open>S - 15 = 49\<close>. From a source that keeps handing out 25, \<^verbatim>\<open>randint(5, 30)\<close>
  returns 30 and the box of class 0 is \<open>(30, 30, 50, 50) / 64\<close>.
\<close>

theorem draw_beyond_S_minus_35_counterexample:
  "\<not> isl (generate_sample disc_px (sconst 25))
   \<and> randint 5 30 (sconst 25) = Inr (30, sconst 25)
   \<and> snd (snd (fst (projr (generate_sample disc_px (sconst 25))))) ! 0
       = (30 / of_nat IMG_SIZE, 30 / of_nat IMG_SIZE, 50 / of_nat IMG_SIZE, 50 / of_nat IMG_SIZE)
   \<and> \<not> (30 \<le> int IMG_SIZE - 35)
   \<and> \<not> (30 + 20 \<le> int IMG_SIZE - 15)"
  by (simp add: generate_sample_eq sample_at_def normalized_def drawn_box_def coord_def
        randint_def IMG_SIZE_def)

text \<open>
  C2. Every sample that \<^verbatim>\<open>generate_sample\<close> returns has, for every class
  \<open>k < NUM_CLASSES\<close>, a well-formed box inside the image: the raw corners satisfy
  \<open>0 \<le> x1 < x2 \<le> IMG_SIZE\<close> and \<open>0 \<le> y1 < y2 \<le> IMG_SIZE\<close>, the stored box is these
  corners divided by the image size, and the stored box satisfies \<open>0 \<le> x1 < x2 \<le> 1\<close> and
  \<open>0 \<le> y1 < y2 \<le> 1\<close>.
\<close>

theorem generate_sample_boxes_in_bounds:
  assumes "k < NUM_CLASSES"
  shows "\<exists>img labels bboxes g' x1 y1 x2 y2.
           generate_sample ell g = Inr ((img, labels, bboxes), g')
         \<and> 0 \<le> x1 \<and> x1 < x2 \<and> x2 \<le> int IMG_SIZE
         \<and> 0 \<le> y1 \<and> y1 < y2 \<and> y2 \<le> int IMG_SIZE
         \<and> bboxes ! k = (of_int x1 / of_nat IMG_SIZE, of_int y1 / of_nat IMG_SIZE,
                         of_int x2 / of_nat IMG_SIZE, of_int y2 / of_nat IMG_SIZE)
         \<and> (case bboxes ! k of (a, b, c, d) \<Rightarrow>
               0 \<le> a \<and> a < c \<and> c \<le> 1 \<and> 0 \<le> b \<and> b < d \<and> d \<le> 1)"
proof -
  from assms have k: "k < 2" by (simp add: NUM_CLASSES_def)
  obtain img labels bboxes where s: "sample_at ell g = (img, labels, bboxes)"
    by (cases "sample_at ell g") auto
  have b: "bboxes ! k = normalized (drawn_box g k)"
    using sample_boxes_nth [OF k, of ell g] s by simp
  let ?x = "coord g (2 * k)" and ?y = "coord g (2 * k + 1)"
  have r: "generate_sample ell g = Inr ((img, labels, bboxes), sdrop 4 g)"
    by (simp add: generate_sample_eq s)
  have x: "0 \<le> ?x \<and> ?x < ?x + 20 \<and> ?x + 20 \<le> int IMG_SIZE"
    using coord_bounds [of g "2 * k"] by (simp add: IMG_SIZE_def)
  have y: "0 \<le> ?y \<and> ?y < ?y + 20 \<and> ?y + 20 \<le> int IMG_SIZE"
    using coord_bounds [of g "2 * k + 1"] by (simp add: IMG_SIZE_def)
  have q: "bboxes ! k = (of_int ?x / of_nat IMG_SIZE, of_int ?y / of_nat IMG_SIZE,
      of_int (?x + 20) / of_nat IMG_SIZE, of_int (?y + 20) / of_nat IMG_SIZE)"
    by (simp add: b normalized_def drawn_box_def IMG_SIZE_def)
  have n: "case bboxes ! k of (a, b, c, d) \<Rightarrow>
      0 \<le> a \<and> a < c \<and> c \<le> 1 \<and> 0 \<le> b \<and> b < d \<and> d \<le> 1"
    unfolding b by (rule normalized_bounds)
  show ?thesis
    by (rule exI [of _ img], rule exI [of _ labels], rule exI [of _ bboxes],
        rule exI [of _ "sdrop 4 g"], rule exI [of _ ?x], rule exI [of _ ?y],
        rule exI [of _ "?x + 20"], rule exI [of _ "?y + 20"])
      (use r x y q n in blast)
qed

theorem generate_sample_boxes_in_bounds_witness:
  "(0::nat) < NUM_CLASSES \<and>
   (\<exists>img labels bboxes g'.
      generate_sample disc_px (5 ## 5 ## 15 ## 10 ## sconst 0) = Inr ((img, labels, bboxes), g')
    \<and> (case bboxes ! 0 of (a, b, c, d) \<Rightarrow>
          0 \<le> a \<and> a < c \<and> c \<le> 1 \<and> 0 \<le> b \<and> b < d \<and> d \<le> 1))"
proof -
  have k: "(0::nat) < NUM_CLASSES" by (simp add: NUM_CLASSES_def)
  from generate_sample_boxes_in_bounds [OF k, of disc_px "5 ## 5 ## 15 ## 10 ## sconst 0"] k
  show ?thesis by (elim exE conjE, intro conjI exI) assumption+
qed

text \<open>
  C3. Every sample that \<^verbatim>\<open>generate_sample\<close> returns has, for every class
  \<open>k < NUM_CLASSES\<close>, a box whose sides are exactly \<open>20 / IMG_SIZE\<close> long, wherever the
  shape lies.
\<close>

theorem generate_sample_box_sides:
  assumes "k < NUM_CLASSES"
  shows "\<exists>img labels bboxes g' a b c d.
           generate_sample ell g = Inr ((img, labels, bboxes), g')
         \<and> bboxes ! k = (a, b, c, d)
         \<and> c - a = 20 / of_nat IMG_SIZE \<and> d - b = 20 / of_nat IMG_SIZE"
proof -
  from assms have k: "k < 2" by (simp add: NUM_CLASSES_def)
  obtain img labels bboxes where s: "sample_at ell g = (img, labels, bboxes)"
    by (cases "sample_at ell g") auto
  have b: "bboxes ! k = normalized (drawn_box g k)"
    using sample_boxes_nth [OF k, of ell g] s by simp
  obtain a b' c d where n: "normalized (drawn_box g k) = (a, b', c, d)"
    by (cases "normalized (drawn_box g k)") auto
  then have "c - a = 20 / of_nat IMG_SIZE \<and> d - b' = 20 / of_nat IMG_SIZE"
    by (auto simp add: normalized_def drawn_box_def IMG_SIZE_def diff_divide_distrib [symmetric])
  moreover have "generate_sample ell g = Inr ((img, labels, bboxes), sdrop 4 g)"
    by (simp add: generate_sample_eq s)
  ultimately show ?thesis using b n by auto
qed

theorem generate_sample_box_sides_witness:
  "(1::nat) < NUM_CLASSES \<and>
   (\<exists>img labels bboxes g' a b c d.
      generate_sample disc_px (5 ## 5 ## 15 ## 10 ## sconst 0) = Inr ((img, labels, bboxes), g')
    \<and> bboxes ! 1 = (a, b, c, d) \<and> c - a = 20 / 64 \<and> d - b = 20 / 64)"
proof -
  have k: "(1::nat) < NUM_CLASSES" by (simp add: NUM_CLASSES_def)
  from generate_sample_box_sides [OF k, of disc_px "5 ## 5 ## 15 ## 10 ## sconst 0"] k
  show ?thesis by (simp add: IMG_SIZE_def)
qed

text \<open>
  C4. The presence vector of every sample that \<^verbatim>\<open>generate_sample\<close> returns is the
  vector of \<open>NUM_CLASSES\<close> ones.
\<close>

theorem generate_sample_presence_all_ones:
  "\<exists>img bboxes g'.
     generate_sample ell g = Inr ((img, replicate NUM_CLASSES 1, bboxes), g')"
  by (simp add: generate_sample_eq sample_at_def NUM_CLASSES_def numeral_2_eq_2)

text \<open>
  C5. For every positive \<open>n\<close>, \<^verbatim>\<open>create_dataset(n)\<close> returns three sequences of length
  exactly \<open>n\<close>, made by exactly \<open>n\<close> calls of \<^verbatim>\<open>generate_sample\<close> in a row: the states
  \<open>gs\<close> of the random source run from the initial one to the final one, call \<open>i\<close> starts
  in state \<open>gs ! i\<close> and leaves state \<open>gs ! (i + 1)\<close>, and its image, presence vector and
  boxes are the \<open>i\<close>-th entries of the three sequences.
\<close>

theorem create_dataset_aligned:
  assumes "0 < n"
  shows "\<exists>X y_cls y_bbox g' gs.
           create_dataset ell n g = Inr ((X, y_cls, y_bbox), g')
         \<and> int (length X) = n \<and> int (length y_cls) = n \<and> int (length y_bbox) = n
         \<and> length gs = nat n + 1 \<and> gs ! 0 = g \<and> gs ! nat n = g'
         \<and> (\<forall>i < nat n.
               generate_sample ell (gs ! i) = Inr ((X ! i, y_cls ! i, y_bbox ! i), gs ! Suc i))"
proof -
  let ?X = "map (\<lambda>i. fst (sample_at ell (sdrop (4 * i) g))) [0 ..< nat n]"
  let ?C = "map (\<lambda>i. fst (snd (sample_at ell (sdrop (4 * i) g)))) [0 ..< nat n]"
  let ?B = "map (\<lambda>i. snd (snd (sample_at ell (sdrop (4 * i) g)))) [0 ..< nat n]"
  let ?gs = "map (\<lambda>i. sdrop (4 * i) g) [0 ..< nat n + 1]"
  have r: "create_dataset ell n g = Inr ((?X, ?C, ?B), sdrop (4 * nat n) g)"
    by (rule create_dataset_eq)
  have l: "int (length ?X) = n \<and> int (length ?C) = n \<and> int (length ?B) = n"
    using assms by simp
  have s: "length ?gs = nat n + 1 \<and> ?gs ! 0 = g \<and> ?gs ! nat n = sdrop (4 * nat n) g"
    by (simp add: nth_append)
  have c: "generate_sample ell (?gs ! i) = Inr ((?X ! i, ?C ! i, ?B ! i), ?gs ! Suc i)"
    if "i < nat n" for i
    using that by (simp add: generate_sample_nth nth_append del: upt_Suc)
  show ?thesis
    by (rule exI [of _ ?X], rule exI [of _ ?C], rule exI [of _ ?B],
        rule exI [of _ "sdrop (4 * nat n) g"], rule exI [of _ ?gs])
      (use r l s c in blast)
qed

theorem create_dataset_aligned_witness:
  "(0::int) < 2 \<and>
   (\<exists>X y_cls y_bbox g' gs.
      create_dataset disc_px 2 (sconst 0) = Inr ((X, y_cls, y_bbox), g')
    \<and> length X = 2 \<and> length y_cls = 2 \<and> length y_bbox = 2
    \<and> generate_sample disc_px (gs ! 0) = Inr ((X ! 0, y_cls ! 0, y_bbox ! 0), gs ! 1)
    \<and> generate_sample disc_px (gs ! 1) = Inr ((X ! 1, y_cls ! 1, y_bbox ! 1), gs ! 2)
    \<and> gs ! 0 = sconst 0 \<and> gs ! 2 = g')"
proof -
  have n: "(0::int) < 2" by simp
  from create_dataset_aligned [OF n, of disc_px "sconst 0"]
  obtain X y_cls y_bbox g' gs where
    r: "create_dataset disc_px 2 (sconst 0) = Inr ((X, y_cls, y_bbox), g')"
    and l: "int (length X) = 2" "int (length y_cls) = 2" "int (length y_bbox) = 2"
    and s: "gs ! 0 = sconst 0" "gs ! nat 2 = g'"
    and c: "\<forall>i < nat 2.
      generate_sample disc_px (gs ! i) = Inr ((X ! i, y_cls ! i, y_bbox ! i), gs ! Suc i)"
    by blast
  from c have c0: "generate_sample disc_px (gs ! 0) = Inr ((X ! 0, y_cls ! 0, y_bbox ! 0), gs ! 1)"
    and c1: "generate_sample disc_px (gs ! 1) = Inr ((X ! 1, y_cls ! 1, y_bbox ! 1), gs ! 2)"
    by (simp_all add: numeral_2_eq_2)
  from l have l': "length X = 2 \<and> length y_cls = 2 \<and> length y_bbox = 2" by simp
  from s have s': "gs ! 0 = sconst 0 \<and> gs ! 2 = g'" by simp
  show ?thesis
    by (rule conjI, rule n, rule exI [of _ X], rule exI [of _ y_cls], rule exI [of _ y_bbox],
        rule exI [of _ g'], rule exI [of _ gs])
      (use r l' s' c0 c1 in blast)
qed

text \<open>
  C6. With the image size 64 and two classes, when the random source yields \<open>x1 = 10\<close>,
  \<open>y1 = 10\<close> for class 0 and \<open>x1 = 20\<close>, \<open>y1 = 15\<close> for class 1, \<^verbatim>\<open>generate_sample\<close>
  returns the boxes \<open>(0.15625, 0.15625, 0.46875, 0.46875)\<close> and
  \<open>(0.3125, 0.234375, 0.625, 0.546875)\<close>.
\<close>

theorem generate_sample_example:
  assumes "randint 5 30 g = Inr (10, g1)" and "randint 5 30 g1 = Inr (10, g2)"
    and "randint 5 30 g2 = Inr (20, g3)" and "randint 5 30 g3 = Inr (15, g4)"
  shows "IMG_SIZE = 64 \<and> NUM_CLASSES = 2 \<and>
     (\<exists>img labels.
        generate_sample ell g =
          Inr ((img, labels,
                [(0.15625, 0.15625, 0.46875, 0.46875), (0.3125, 0.234375, 0.625, 0.546875)]),
               g4))"
proof -
  from assms(1) have 1: "coord g 0 = 10" "g1 = stl g" by (simp_all add: randint_5_30)
  from assms(2) have 2: "coord g (Suc 0) = 10" "g2 = stl (stl g)"
    by (simp_all add: randint_5_30 1 coord_stl)
  from assms(3) have 3: "coord g 2 = 20" "g3 = stl (stl (stl g))"
    by (simp_all add: randint_5_30 2 coord_stl numeral_2_eq_2)
  from assms(4) have 4: "coord g 3 = 15" "g4 = sdrop 4 g"
    by (simp_all add: randint_5_30 3 coord_stl numeral_3_eq_3 sdrop_4)
  show ?thesis
    by (simp add: generate_sample_eq sample_at_def normalized_def drawn_box_def 1 2 3 4
          IMG_SIZE_def NUM_CLASSES_def)
qed

theorem generate_sample_example_witness:
  "\<exists>img labels.
      generate_sample disc_px (5 ## 5 ## 15 ## 10 ## sconst 0) =
        Inr ((img, labels,
              [(0.15625, 0.15625, 0.46875, 0.46875), (0.3125, 0.234375, 0.625, 0.546875)]),
             sconst 0)"
proof -
  have "randint 5 30 (5 ## 5 ## 15 ## 10 ## sconst 0) = Inr (10, 5 ## 15 ## 10 ## sconst 0)"
    and "randint 5 30 (5 ## 15 ## 10 ## sconst 0) = Inr (10, 15 ## 10 ## sconst 0)"
    and "randint 5 30 (15 ## 10 ## sconst 0) = Inr (20, 10 ## sconst 0)"
    and "randint 5 30 (10 ## sconst 0) = Inr (15, sconst 0)"
    by (simp_all add: randint_def)
  from generate_sample_example [OF this, of disc_px] show ?thesis by simp
qed

text \<open>
  C7. \<^verbatim>\<open>generate_sample\<close> and \<^verbatim>\<open>create_dataset\<close> are functions of the state of the random
  source: a sample is fixed by the next four draws and a dataset of \<open>n\<close> samples by the
  next \<open>4n\<close>, so two runs from sources that agree on those draws, and all the more from
  identical states, return the same images, presence vectors and boxes; and the only
  thing either function changes is the random source, which it advances by these draws.
\<close>

theorem generation_determined_by_random_source:
  "(\<exists>s. generate_sample ell g = Inr (s, sdrop 4 g)
        \<and> (\<forall>h. stake 4 h = stake 4 g \<longrightarrow> generate_sample ell h = Inr (s, sdrop 4 h)))
   \<and> (\<exists>d. create_dataset ell n g = Inr (d, sdrop (4 * nat n) g)
        \<and> (\<forall>h. stake (4 * nat n) h = stake (4 * nat n) g \<longrightarrow>
               create_dataset ell n h = Inr (d, sdrop (4 * nat n) h)))"
proof (rule conjI)
  have "generate_sample ell h = Inr (sample_at ell g, sdrop 4 h)"
    if "stake 4 h = stake 4 g" for h
    unfolding generate_sample_eq sample_at_cong [OF that] by (rule refl)
  then show "\<exists>s. generate_sample ell g = Inr (s, sdrop 4 g)
        \<and> (\<forall>h. stake 4 h = stake 4 g \<longrightarrow> generate_sample ell h = Inr (s, sdrop 4 h))"
    using generate_sample_eq [of ell g] by blast
next
  let ?d = "\<lambda>g. (map (\<lambda>i. fst (sample_at ell (sdrop (4 * i) g))) [0 ..< nat n],
           map (\<lambda>i. fst (snd (sample_at ell (sdrop (4 * i) g)))) [0 ..< nat n],
           map (\<lambda>i. snd (snd (sample_at ell (sdrop (4 * i) g)))) [0 ..< nat n])"
  have "create_dataset ell n h = Inr (?d g, sdrop (4 * nat n) h)"
    if "stake (4 * nat n) h = stake (4 * nat n) g" for h
    unfolding create_dataset_eq dataset_cong [OF that, where f = fst]
      dataset_cong [OF that, where f = "\<lambda>s. fst (snd s)"]
      dataset_cong [OF that, where f = "\<lambda>s. snd (snd s)"]
    by (rule refl)
  then show "\<exists>d. create_dataset ell n g = Inr (d, sdrop (4 * nat n) g)
        \<and> (\<forall>h. stake (4 * nat n) h = stake (4 * nat n) g \<longrightarrow>
               create_dataset ell n h = Inr (d, sdrop (4 * nat n) h))"
    using create_dataset_eq [of ell n g] by blast
qed


theorem generation_determined_by_random_source_witness:
  "stake 4 (0 ## 0 ## 0 ## 0 ## sconst 7) = stake 4 (sconst (0::nat))
   \<and> (\<exists>s. generate_sample disc_px (sconst 0) = Inr (s, sconst 0)
          \<and> generate_sample disc_px (0 ## 0 ## 0 ## 0 ## sconst 7) = Inr (s, sconst 7))"
proof -
  have e: "stake 4 (0 ## 0 ## 0 ## 0 ## sconst 7) = stake 4 (sconst (0::nat))"
    by (simp add: numeral_eq_Suc)
  have d: "sdrop 4 (sconst (0::nat)) = sconst 0"
    "sdrop 4 (0 ## 0 ## 0 ## 0 ## sconst 7) = sconst (7::nat)"
    by (simp_all add: sdrop_4)
  from generation_determined_by_random_source [of disc_px "sconst 0" 1]
  obtain s where g: "generate_sample disc_px (sconst 0) = Inr (s, sdrop 4 (sconst 0))"
    and a: "\<forall>h. stake 4 h = stake 4 (sconst 0) \<longrightarrow> generate_sample disc_px h = Inr (s, sdrop 4 h)"
    by blast
  from a e have h: "generate_sample disc_px (0 ## 0 ## 0 ## 0 ## sconst 7) =
      Inr (s, sdrop 4 (0 ## 0 ## 0 ## 0 ## sconst 7))"
    by blast
  show ?thesis
    using e g h unfolding d by blast
qed

text \<open>
  C8. With the image size 64, two classes and shapes of side 20, \<^verbatim>\<open>generate_sample\<close>
  returns a sample from every state of the random source: none of the exceptions of its
  library calls is raised.
\<close>

theorem generate_sample_total:
  "IMG_SIZE = 64 \<and> NUM_CLASSES = 2 \<and> (\<exists>s g'. generate_sample ell g = Inr (s, g'))"
proof -
  have "\<exists>s g'. generate_sample ell g = Inr (s, g')"
    by (intro exI) (rule generate_sample_eq)
  then show ?thesis
    by (simp add: IMG_SIZE_def NUM_CLASSES_def)
qed

text \<open>
  C9. In every call of \<^verbatim>\<open>generate_sample\<close> the red rectangle of class 0 is drawn first and
  the blue ellipse of class 1 over it: the image returned is the black canvas with the
  rectangle painted and then the ellipse, so a pixel of the canvas that both shapes cover
  is blue in the image returned.
\<close>

theorem ellipse_drawn_over_rectangle:
  assumes "randint 5 30 g = Inr (x1, g1)" and "randint 5 30 g1 = Inr (y1, g2)"
    and "randint 5 30 g2 = Inr (u1, g3)" and "randint 5 30 g3 = Inr (v1, g4)"
    and "x < IMG_SIZE" and "y < IMG_SIZE"
    and "rectangle_px (x1, y1, x1 + 20, y1 + 20) (int x) (int y)"
    and "ell (u1, v1, u1 + 20, v1 + 20) (int x) (int y)"
  shows "\<exists>img labels bboxes.
           generate_sample ell g = Inr ((img, labels, bboxes), g4)
         \<and> img = img_to_array (paint (ell (u1, v1, u1 + 20, v1 + 20)) blue
                   (paint (rectangle_px (x1, y1, x1 + 20, y1 + 20)) red
                      (Image_new (IMG_SIZE, IMG_SIZE) black)))
         \<and> img ! y ! x = (0, 0, 1)"
proof -
  from assms(1) have 1: "coord g 0 = x1" "g1 = stl g" by (simp_all add: randint_5_30)
  from assms(2) have 2: "coord g (Suc 0) = y1" "g2 = stl (stl g)"
    by (simp_all add: randint_5_30 1 coord_stl)
  from assms(3) have 3: "coord g 2 = u1" "g3 = stl (stl (stl g))"
    by (simp_all add: randint_5_30 2 coord_stl numeral_2_eq_2)
  from assms(4) have 4: "coord g 3 = v1" "g4 = sdrop 4 g"
    by (simp_all add: randint_5_30 3 coord_stl numeral_3_eq_3 sdrop_4)
  have b0: "drawn_box g 0 = (x1, y1, x1 + 20, y1 + 20)"
    by (simp add: drawn_box_def 1 2)
  have b1: "drawn_box g (Suc 0) = (u1, v1, u1 + 20, v1 + 20)"
    by (simp add: drawn_box_def 3 4)
  have p: "fst (sample_at ell g) ! y ! x = (0, 0, 1)"
    using assms(8) b1 by (simp add: sample_pixel [OF assms(6) assms(5)])
  have i: "fst (sample_at ell g) = img_to_array (paint (ell (u1, v1, u1 + 20, v1 + 20)) blue
                   (paint (rectangle_px (x1, y1, x1 + 20, y1 + 20)) red
                      (Image_new (IMG_SIZE, IMG_SIZE) black)))"
    by (simp add: sample_at_def b0 b1)
  have r: "generate_sample ell g =
      Inr ((fst (sample_at ell g), fst (snd (sample_at ell g)), snd (snd (sample_at ell g))), g4)"
    by (simp add: generate_sample_eq 4)
  show ?thesis
    by (rule exI [of _ "fst (sample_at ell g)"], rule exI [of _ "fst (snd (sample_at ell g))"],
        rule exI [of _ "snd (snd (sample_at ell g))"])
      (use r i p in simp)
qed

theorem ellipse_drawn_over_rectangle_witness:
  "\<exists>img labels bboxes.
      generate_sample disc_px (5 ## 5 ## 15 ## 10 ## sconst 0) = Inr ((img, labels, bboxes), sconst 0)
    \<and> rectangle_px (10, 10, 30, 30) 25 25 \<and> disc_px (20, 15, 40, 35) 25 25
    \<and> img ! 25 ! 25 = (0, 0, 1)"
proof -
  have d: "randint 5 30 (5 ## 5 ## 15 ## 10 ## sconst 0) = Inr (10, 5 ## 15 ## 10 ## sconst 0)"
    "randint 5 30 (5 ## 15 ## 10 ## sconst 0) = Inr (10, 15 ## 10 ## sconst 0)"
    "randint 5 30 (15 ## 10 ## sconst 0) = Inr (20, 10 ## sconst 0)"
    "randint 5 30 (10 ## sconst 0) = Inr (15, sconst 0)"
    by (simp_all add: randint_def)
  have x: "(25::nat) < IMG_SIZE" by (simp add: IMG_SIZE_def)
  have c: "rectangle_px (10, 10, 10 + 20, 10 + 20) (int 25) (int 25)"
    "disc_px (20, 15, 20 + 20, 15 + 20) (int 25) (int 25)"
    by (simp_all add: rectangle_px_def disc_px_def)
  from ellipse_drawn_over_rectangle [where ell = disc_px, OF d x x c]
  obtain img labels bboxes where
    r: "generate_sample disc_px (5 ## 5 ## 15 ## 10 ## sconst 0) = Inr ((img, labels, bboxes), sconst 0)"
    and p: "img ! 25 ! 25 = (0, 0, 1)"
    by blast
  from c have c': "rectangle_px (10, 10, 30, 30) 25 25 \<and> disc_px (20, 15, 40, 35) 25 25"
    by simp
  show ?thesis
    by (rule exI [of _ img], rule exI [of _ labels], rule exI [of _ bboxes])
      (use r p c' in blast)
qed

text \<open>
  C10. \<^verbatim>\<open>create_dataset\<close> does not ask for a positive count: \<^verbatim>\<open>create_dataset(0)\<close>
  returns three empty sequences and leaves the random source alone, and for every
  \<open>n \<ge> 0\<close> it returns, without an exception, three sequences of length exactly \<open>n\<close>
  whose \<open>i\<close>-th entries are the image, presence vector and boxes of the \<open>i\<close>-th call of
  \<^verbatim>\<open>generate_sample\<close>.
\<close>

theorem create_dataset_without_positive_count:
  assumes "0 \<le> n"
  shows "create_dataset ell 0 g = Inr (([], [], []), g)
       \<and> (\<exists>X y_cls y_bbox g'.
             create_dataset ell n g = Inr ((X, y_cls, y_bbox), g')
           \<and> int (length X) = n \<and> int (length y_cls) = n \<and> int (length y_bbox) = n
           \<and> (\<forall>i < nat n.
                 generate_sample ell (sdrop (4 * i) g) =
                   Inr ((X ! i, y_cls ! i, y_bbox ! i), sdrop (4 * Suc i) g)))"
proof -
  let ?X = "map (\<lambda>i. fst (sample_at ell (sdrop (4 * i) g))) [0 ..< nat n]"
  let ?C = "map (\<lambda>i. fst (snd (sample_at ell (sdrop (4 * i) g)))) [0 ..< nat n]"
  let ?B = "map (\<lambda>i. snd (snd (sample_at ell (sdrop (4 * i) g)))) [0 ..< nat n]"
  have z: "create_dataset ell 0 g = Inr (([], [], []), g)"
    by (simp add: create_dataset_eq)
  have r: "create_dataset ell n g = Inr ((?X, ?C, ?B), sdrop (4 * nat n) g)"
    by (rule create_dataset_eq)
  have l: "int (length ?X) = n \<and> int (length ?C) = n \<and> int (length ?B) = n"
    using assms by simp
  have c: "generate_sample ell (sdrop (4 * i) g) =
      Inr ((?X ! i, ?C ! i, ?B ! i), sdrop (4 * Suc i) g)"
    if "i < nat n" for i
    using that generate_sample_nth [of ell i g] by (simp del: upt_Suc)
  show ?thesis
    by (rule conjI, rule z, rule exI [of _ ?X], rule exI [of _ ?C], rule exI [of _ ?B],
        rule exI [of _ "sdrop (4 * nat n) g"])
      (use r l c in blast)
qed

theorem create_dataset_without_positive_count_witness:
  "(0::int) \<le> 0 \<and> create_dataset disc_px 0 (sconst 3) = Inr (([], [], []), sconst 3)"
proof -
  have n: "(0::int) \<le> 0" by simp
  from create_dataset_without_positive_count [OF n, of disc_px "sconst 3"]
  show ?thesis by simp
qed

end
